theory Spec2Isabelle
  imports Main "HOL-Library.Sublist"
begin

section \<open>The business directory scraper (T.py)\<close>

text \<open>
  A shallow embedding of the harvesting pipeline of \<^verbatim>\<open>T.py\<close>: the three provider
  scrapers, the per-category orchestration with its duplicate removal and its limit of
  ten, and the per-region loop that appends the shortfall row.

  The program talks to the network and parses HTML with third-party libraries. Those
  libraries are not part of the program, so they are parameters of the model, collected
  in the record \<open>env\<close>: what an HTTP request answers, what the HTML parser finds in a
  page, what the regular-expression engine matches, how \<^verbatim>\<open>quote_plus\<close> escapes a
  string, and what \<^verbatim>\<open>str.lower\<close> returns for text outside ASCII. Everything the
  program itself does with those answers is modelled.

  A Python string is modelled by the bytes of its UTF-8 encoding, so a character outside
  ASCII is a sequence of two to four bytes, each of them 128 or more.
\<close>

subsection \<open>Configuration\<close>

definition CATEGORIES :: "string list" where
  "CATEGORIES =
    [''Clothing & Apparel'', ''Electronics & Gadgets'', ''Beauty & Personal Care'',
     ''Jewelry & Accessories'', ''Furniture & D'' @ [CHR 0xC3, CHR 0xA9] @ ''cor'',
     ''Legal Services'', ''Accounting & Tax'', ''Consulting'', ''Real Estate Agency'',
     ''Financial Planning'', ''Hospitals & Clinics'', ''Fitness Centers'',
     ''Restaurants'', ''Cafes'', ''Catering Services'', ''Coaching Institutes'']"

record region_config =
  name :: string
  country :: string
  state_code :: "string option"
  province_code :: "string option"
  sources :: "string list"

definition kansas :: region_config where
  "kansas = \<lparr> name = ''Kansas'', country = ''United States'',
      state_code = Some ''KS'', province_code = None,
      sources = [''https://www.yellowpages.com'', ''https://www.yelp.com'',
                 ''https://www.manta.com''] \<rparr>"

definition nunavut :: region_config where
  "nunavut = \<lparr> name = ''Nunavut'', country = ''Canada'',
      state_code = None, province_code = Some ''NU'',
      sources = [''https://www.yellowpages.ca'', ''https://www.yelp.ca'',
                 ''https://www.canada411.ca''] \<rparr>"

definition REGIONS :: "(string \<times> region_config) list" where
  "REGIONS = [(''kansas'', kansas), (''nunavut'', nunavut)]"

subsection \<open>Rows, parsed listings, and the outside world\<close>

text \<open>
  A row is the dictionary the scrapers and the region loop build. \<open>Website\<close> is an
  option because \<^verbatim>\<open>scrape_yelp\<close> stores \<^verbatim>\<open>website_elem.get('href')\<close> as it is, which
  is \<^verbatim>\<open>None\<close> for a link without that attribute.
\<close>

record row =
  Business_Name :: string
  Email :: string
  Phone :: string
  Website :: "string option"
  Address :: string
  Category :: string

text \<open>
  What the parser finds in one listing of a YellowPages result page: the text of the
  name, phone and address elements (\<open>None\<close> when no element matches), the
  \<^verbatim>\<open>href\<close> of the website link, and the text of the whole listing.
\<close>

record listing =
  name_elem :: "string option"
  phone_elem :: "string option"
  website_href :: "string option"
  address_elem :: "string option"
  listing_text :: string

text \<open>
  A Yelp search card: the name element, if any, with its text and its \<^verbatim>\<open>href\<close>.
  A Yelp business page: the texts of the phone and address elements, and the website
  element (\<open>None\<close> when absent, otherwise its \<^verbatim>\<open>href\<close>, itself possibly absent).
\<close>

record yelp_card =
  card_name_elem :: "(string \<times> string option) option"

record yelp_page =
  page_phone_elem :: "string option"
  page_website_elem :: "string option option"
  page_address_elem :: "string option"

text \<open>
  The trace of a run. \<open>Fetch url\<close> is one call of \<^verbatim>\<open>fetch_page\<close> (the program logs
  it as "Fetching: url"). \<open>Consult src\<close> records that the scraper of the source with
  base address \<open>src\<close> was entered: it is what a call count on that scraper observes.
\<close>

datatype event = Fetch string | Consult string

datatype email_pattern = Plain | Mailto

record env =
  http_get :: "event list \<Rightarrow> string \<Rightarrow> string option"
  quote_plus :: "string \<Rightarrow> string"
  re_findall :: "email_pattern \<Rightarrow> string \<Rightarrow> string list"
  yp_us_listings :: "string \<Rightarrow> listing list"
  yp_ca_listings :: "string \<Rightarrow> listing list"
  yelp_listings :: "string \<Rightarrow> yelp_card list"
  yelp_business :: "string \<Rightarrow> yelp_page"
  unicode_lower :: "string \<Rightarrow> string"

subsection \<open>Helper functions\<close>

text \<open>
  \<^verbatim>\<open>fetch_page\<close>: the body of the response, or \<open>None\<close> when the request raised.
  The answer may depend on everything that happened before.
\<close>

definition fetch_page :: "env \<Rightarrow> string \<Rightarrow> event list \<Rightarrow> string option \<times> event list" where
  "fetch_page e url tr = (http_get e tr url, tr @ [Fetch url])"

text \<open>Python's truth value of an optional string: \<^verbatim>\<open>None\<close> and \<^verbatim>\<open>""\<close> are false.\<close>

definition truthy :: "string option \<Rightarrow> bool" where
  "truthy v = (case v of None \<Rightarrow> False | Some s \<Rightarrow> s \<noteq> [])"

text \<open>\<^verbatim>\<open>x or ""\<close>\<close>

definition or_empty :: "string option \<Rightarrow> string" where
  "or_empty v = (case v of None \<Rightarrow> [] | Some s \<Rightarrow> s)"

definition extract_email_from_text :: "env \<Rightarrow> string \<Rightarrow> string option" where
  "extract_email_from_text e text =
     (if text = [] then None
      else case re_findall e Plain text of
             m # _ \<Rightarrow> Some m
           | [] \<Rightarrow> (case re_findall e Mailto text of
                      m # _ \<Rightarrow> Some m
                    | [] \<Rightarrow> None))"

text \<open>
  The characters that \<^verbatim>\<open>str.strip\<close> and the pattern \<^verbatim>\<open>\s\<close> take for whitespace, each
  by its UTF-8 encoding: U+0009 to U+000D, U+001C to U+0020, U+0085, U+00A0, U+1680,
  U+2000 to U+200A, U+2028, U+2029, U+202F, U+205F and U+3000.
\<close>

definition WHITESPACE :: "string list" where
  "WHITESPACE =
     [[CHR 0x09], [CHR 0x0A], [CHR 0x0B], [CHR 0x0C], [CHR 0x0D],
      [CHR 0x1C], [CHR 0x1D], [CHR 0x1E], [CHR 0x1F], [CHR 0x20],
      [CHR 0xC2, CHR 0x85], [CHR 0xC2, CHR 0xA0], [CHR 0xE1, CHR 0x9A, CHR 0x80],
      [CHR 0xE2, CHR 0x80, CHR 0x80], [CHR 0xE2, CHR 0x80, CHR 0x81],
      [CHR 0xE2, CHR 0x80, CHR 0x82], [CHR 0xE2, CHR 0x80, CHR 0x83],
      [CHR 0xE2, CHR 0x80, CHR 0x84], [CHR 0xE2, CHR 0x80, CHR 0x85],
      [CHR 0xE2, CHR 0x80, CHR 0x86], [CHR 0xE2, CHR 0x80, CHR 0x87],
      [CHR 0xE2, CHR 0x80, CHR 0x88], [CHR 0xE2, CHR 0x80, CHR 0x89],
      [CHR 0xE2, CHR 0x80, CHR 0x8A], [CHR 0xE2, CHR 0x80, CHR 0xA8],
      [CHR 0xE2, CHR 0x80, CHR 0xA9], [CHR 0xE2, CHR 0x80, CHR 0xAF],
      [CHR 0xE2, CHR 0x81, CHR 0x9F], [CHR 0xE3, CHR 0x80, CHR 0x80]]"

text \<open>The number of bytes of the word of \<open>ws\<close> that \<open>s\<close> starts with, 0 when there is none.\<close>

definition match_length :: "string list \<Rightarrow> string \<Rightarrow> nat" where
  "match_length ws s =
     (case find (\<lambda>w. prefix w s) ws of None \<Rightarrow> 0 | Some w \<Rightarrow> length w)"

function drop_leading :: "string list \<Rightarrow> string \<Rightarrow> string" where
  "drop_leading ws s =
     (if match_length ws s = 0 then s else drop_leading ws (drop (match_length ws s) s))"
  by pat_completeness auto
termination
proof (relation "measure (\<lambda>(ws, s). length s)")
  fix ws :: "string list" and s :: string
  assume "match_length ws s \<noteq> 0"
  then have "0 < match_length ws s" by simp
  moreover have "match_length ws s \<le> length s"
    by (auto simp: match_length_def find_Some_iff split: option.splits dest: prefix_length_le)
  ultimately show "((ws, drop (match_length ws s) s), (ws, s)) \<in> measure (\<lambda>(ws, s). length s)"
    by simp
qed simp

declare drop_leading.simps [simp del]

text \<open>
  \<^verbatim>\<open>text.strip()\<close>: whitespace is dropped at both ends. A whitespace character at the
  end of the text is the reverse of its encoding at the start of the reversed text.
\<close>

definition lstrip :: "string \<Rightarrow> string" where
  "lstrip s = drop_leading WHITESPACE s"

definition rstrip :: "string \<Rightarrow> string" where
  "rstrip s = rev (drop_leading (map rev WHITESPACE) (rev s))"

definition strip :: "string \<Rightarrow> string" where
  "strip s = rstrip (lstrip s)"

text \<open>\<^verbatim>\<open>re.sub(r'\s+', ' ', ...)\<close>: every maximal run of whitespace becomes one space.\<close>

function collapse_spaces :: "string \<Rightarrow> string" where
  "collapse_spaces [] = []"
| "collapse_spaces (c # cs) =
     (if match_length WHITESPACE (c # cs) = 0 then c # collapse_spaces cs
      else CHR '' '' # collapse_spaces (lstrip (c # cs)))"
  by pat_completeness auto
termination
proof (relation "measure length")
  have shorter: "length (drop_leading ws s) \<le> length s" for ws s
  proof (induction ws s rule: drop_leading.induct)
    case (1 ws s)
    show ?case
    proof (cases "match_length ws s = 0")
      case True
      then have "drop_leading ws s = s" by (subst drop_leading.simps) simp
      then show ?thesis by simp
    next
      case False
      then have "drop_leading ws s = drop_leading ws (drop (match_length ws s) s)"
        by (subst drop_leading.simps) simp
      moreover from False have "length (drop_leading ws (drop (match_length ws s) s))
                                  \<le> length (drop (match_length ws s) s)"
        by (rule "1.IH")
      ultimately show ?thesis by simp
    qed
  qed
  fix c :: char and cs :: string
  assume nz: "match_length WHITESPACE (c # cs) \<noteq> 0"
  then have "lstrip (c # cs) =
               drop_leading WHITESPACE (drop (match_length WHITESPACE (c # cs)) (c # cs))"
    unfolding lstrip_def by (subst drop_leading.simps) simp
  moreover have "length (drop_leading WHITESPACE (drop (match_length WHITESPACE (c # cs)) (c # cs)))
                   \<le> length (drop (match_length WHITESPACE (c # cs)) (c # cs))"
    by (rule shorter)
  moreover from nz have "length (drop (match_length WHITESPACE (c # cs)) (c # cs)) < length (c # cs)"
    by simp
  ultimately show "(lstrip (c # cs), c # cs) \<in> measure length" by simp
qed simp_all

declare collapse_spaces.simps(2) [simp del]

definition clean_text :: "string \<Rightarrow> string" where
  "clean_text text = (if text = [] then [] else collapse_spaces (strip text))"

text \<open>
  \<^verbatim>\<open>str.lower\<close>. On text that is all ASCII it turns A to Z into a to z and leaves every
  other character as it is. On text with a character outside ASCII its result comes from
  the tables of the Unicode database, which are not part of the program: there it is
  the parameter \<open>unicode_lower\<close>.
\<close>

definition is_ascii :: "string \<Rightarrow> bool" where
  "is_ascii s = list_all (\<lambda>c. \<not> digit7 c) s"

definition lower_char :: "char \<Rightarrow> char" where
  "lower_char c =
     (case map_of (zip ''ABCDEFGHIJKLMNOPQRSTUVWXYZ'' ''abcdefghijklmnopqrstuvwxyz'') c of
        Some d \<Rightarrow> d
      | None \<Rightarrow> c)"

definition lower :: "env \<Rightarrow> string \<Rightarrow> string" where
  "lower e s = (if is_ascii s then map lower_char s else unicode_lower e s)"

definition startswith_slash :: "string \<Rightarrow> bool" where
  "startswith_slash s = (case s of [] \<Rightarrow> False | c # _ \<Rightarrow> c = CHR ''/'')"

subsection \<open>YellowPages (US and Canada)\<close>

text \<open>
  The body of the loop over the listings is the same in \<^verbatim>\<open>scrape_yellowpages_us\<close> and
  \<^verbatim>\<open>scrape_yellowpages_ca\<close>; only the selectors that find the elements differ, and
  they are in \<open>env\<close>. \<open>website_email\<close> is lines 202-209: the linked website is fetched
  whenever the link is non-empty, and an exception there leaves the email unset.
\<close>

definition website_email :: "env \<Rightarrow> string option \<Rightarrow> event list \<Rightarrow> string option \<times> event list" where
  "website_email e website tr =
     (case website of
        None \<Rightarrow> (None, tr)
      | Some w \<Rightarrow>
          if w = [] then (None, tr)
          else (case fetch_page e w tr of
                  (None, tr') \<Rightarrow> (None, tr')
                | (Some website_html, tr') \<Rightarrow>
                    if website_html = [] then (None, tr')
                    else (extract_email_from_text e website_html, tr')))"

text \<open>
  One pass of the loop body: \<open>None\<close> when the listing is skipped (\<^verbatim>\<open>continue\<close>),
  otherwise the row that is appended.
\<close>

definition process_listing :: "env \<Rightarrow> string \<Rightarrow> listing \<Rightarrow> event list \<Rightarrow> row option \<times> event list" where
  "process_listing e category l tr =
     (case name_elem l of
        None \<Rightarrow> (None, tr)
      | Some name_text \<Rightarrow>
          let business_name = clean_text name_text in
          if business_name = [] then (None, tr)
          else
            let phone = map_option clean_text (phone_elem l);
                website = website_href l;
                address = map_option clean_text (address_elem l);
                (email, tr') = website_email e website tr;
                email = (if \<not> truthy email then extract_email_from_text e (listing_text l)
                         else email)
            in if \<not> truthy email then (None, tr')
               else (Some \<lparr> Business_Name = business_name, Email = or_empty email,
                             Phone = or_empty phone, Website = Some (or_empty website),
                             Address = or_empty address, Category = category \<rparr>, tr'))"

text \<open>The loop itself, with its \<^verbatim>\<open>break\<close> once ten rows are collected.\<close>

fun listing_loop :: "env \<Rightarrow> string \<Rightarrow> listing list \<Rightarrow> row list \<Rightarrow> event list \<Rightarrow> row list \<times> event list" where
  "listing_loop e category [] businesses tr = (businesses, tr)"
| "listing_loop e category (l # ls) businesses tr =
     (case process_listing e category l tr of
        (None, tr') \<Rightarrow> listing_loop e category ls businesses tr'
      | (Some b, tr') \<Rightarrow>
          let businesses = businesses @ [b] in
          if length businesses \<ge> 10 then (businesses, tr')
          else listing_loop e category ls businesses tr')"

definition scrape_yellowpages_us :: "env \<Rightarrow> string \<Rightarrow> string \<Rightarrow> event list \<Rightarrow> row list \<times> event list" where
  "scrape_yellowpages_us e category location tr =
     (let tr = tr @ [Consult ''https://www.yellowpages.com''];
          search_terms = quote_plus e category;
          geo_location = quote_plus e (location @ '', United States'');
          url = ''https://www.yellowpages.com/search?search_terms='' @ search_terms
                @ ''&geo_location_terms='' @ geo_location
      in case fetch_page e url tr of
           (None, tr') \<Rightarrow> ([], tr')
         | (Some html, tr') \<Rightarrow>
             if html = [] then ([], tr')
             else listing_loop e category (take 15 (yp_us_listings e html)) [] tr')"

definition scrape_yellowpages_ca :: "env \<Rightarrow> string \<Rightarrow> string \<Rightarrow> event list \<Rightarrow> row list \<times> event list" where
  "scrape_yellowpages_ca e category location tr =
     (let tr = tr @ [Consult ''https://www.yellowpages.ca''];
          search_terms = quote_plus e category;
          geo_location = quote_plus e (location @ '', Canada'');
          url = ''https://www.yellowpages.ca/search/si/1/'' @ search_terms
                @ ''/'' @ geo_location
      in case fetch_page e url tr of
           (None, tr') \<Rightarrow> ([], tr')
         | (Some html, tr') \<Rightarrow>
             if html = [] then ([], tr')
             else listing_loop e category (take 15 (yp_ca_listings e html)) [] tr')"

subsection \<open>Yelp\<close>

definition process_card :: "env \<Rightarrow> string \<Rightarrow> string \<Rightarrow> yelp_card \<Rightarrow> event list \<Rightarrow> row option \<times> event list" where
  "process_card e category base_url item tr =
     (case card_name_elem item of
        None \<Rightarrow> (None, tr)
      | Some (name_text, href) \<Rightarrow>
          let business_name = clean_text name_text in
          if business_name = [] then (None, tr)
          else (case href of
                  None \<Rightarrow> (None, tr)
                | Some business_link \<Rightarrow>
                    if business_link = [] then (None, tr)
                    else
                      let business_link =
                            (if startswith_slash business_link then base_url @ business_link
                             else business_link)
                      in case fetch_page e business_link tr of
                           (None, tr') \<Rightarrow> (None, tr')
                         | (Some business_html, tr') \<Rightarrow>
                             if business_html = [] then (None, tr')
                             else
                               let business_soup = yelp_business e business_html;
                                   email = extract_email_from_text e business_html
                               in if \<not> truthy email then (None, tr')
                                  else
                                    let phone = (case page_phone_elem business_soup of
                                                   Some t \<Rightarrow> clean_text t | None \<Rightarrow> []);
                                        website = (case page_website_elem business_soup of
                                                     Some h \<Rightarrow> h | None \<Rightarrow> Some []);
                                        address = (case page_address_elem business_soup of
                                                     Some t \<Rightarrow> clean_text t | None \<Rightarrow> [])
                                    in (Some \<lparr> Business_Name = business_name,
                                                Email = or_empty email, Phone = phone,
                                                Website = website, Address = address,
                                                Category = category \<rparr>, tr')))"

fun card_loop :: "env \<Rightarrow> string \<Rightarrow> string \<Rightarrow> yelp_card list \<Rightarrow> row list \<Rightarrow> event list \<Rightarrow> row list \<times> event list" where
  "card_loop e category base_url [] businesses tr = (businesses, tr)"
| "card_loop e category base_url (c # cs) businesses tr =
     (case process_card e category base_url c tr of
        (None, tr') \<Rightarrow> card_loop e category base_url cs businesses tr'
      | (Some b, tr') \<Rightarrow>
          let businesses = businesses @ [b] in
          if length businesses \<ge> 10 then (businesses, tr')
          else card_loop e category base_url cs businesses tr')"

definition scrape_yelp :: "env \<Rightarrow> string \<Rightarrow> string \<Rightarrow> bool \<Rightarrow> event list \<Rightarrow> row list \<times> event list" where
  "scrape_yelp e category location is_canada tr =
     (let base_url = (if is_canada then ''https://www.yelp.ca'' else ''https://www.yelp.com'');
          tr = tr @ [Consult base_url];
          search_url = base_url @ ''/search?find_desc='' @ quote_plus e category
                       @ ''&find_loc='' @ quote_plus e location
      in case fetch_page e search_url tr of
           (None, tr') \<Rightarrow> ([], tr')
         | (Some html, tr') \<Rightarrow>
             if html = [] then ([], tr')
             else card_loop e category base_url (take 15 (yelp_listings e html)) [] tr')"

subsection \<open>One category of one region\<close>

text \<open>Lines 405-409: the first source is the YellowPages site of the region's country.\<close>

definition scrape_yellowpages :: "env \<Rightarrow> string \<Rightarrow> region_config \<Rightarrow> event list \<Rightarrow> row list \<times> event list" where
  "scrape_yellowpages e category region_config tr =
     (let location = name region_config;
          is_canada = (country region_config = ''Canada'')
      in if is_canada then scrape_yellowpages_ca e category location tr
         else scrape_yellowpages_us e category location tr)"

text \<open>Lines 400-416: YellowPages first, Yelp if fewer than ten rows came back.\<close>

definition collect_businesses :: "env \<Rightarrow> string \<Rightarrow> region_config \<Rightarrow> event list \<Rightarrow> row list \<times> event list" where
  "collect_businesses e category region_config tr =
     (let location = name region_config;
          is_canada = (country region_config = ''Canada'')
      in case scrape_yellowpages e category region_config tr of
           (businesses, tr1) \<Rightarrow>
             let all_businesses = [] @ businesses
             in if length all_businesses < 10
                then (case scrape_yelp e category location is_canada tr1 of
                        (yelp_businesses, tr2) \<Rightarrow> (all_businesses @ yelp_businesses, tr2))
                else (all_businesses, tr1))"

text \<open>Lines 418-426: the first row bearing each identifier is kept.\<close>

definition identifier_of :: "env \<Rightarrow> row \<Rightarrow> string \<times> string" where
  "identifier_of e business =
     (lower e (Business_Name business), lower e (Email business))"

fun dedup_loop :: "env \<Rightarrow> row list \<Rightarrow> (string \<times> string) set \<Rightarrow> row list \<Rightarrow> row list" where
  "dedup_loop e [] seen unique_businesses = unique_businesses"
| "dedup_loop e (business # rest) seen unique_businesses =
     (if identifier_of e business \<notin> seen
      then dedup_loop e rest (insert (identifier_of e business) seen)
             (unique_businesses @ [business])
      else dedup_loop e rest seen unique_businesses)"

definition remove_duplicates :: "env \<Rightarrow> row list \<Rightarrow> row list" where
  "remove_duplicates e all_businesses = dedup_loop e all_businesses {} []"

definition scrape_category_for_region :: "env \<Rightarrow> string \<Rightarrow> string \<Rightarrow> region_config \<Rightarrow> event list \<Rightarrow> row list \<times> event list" where
  "scrape_category_for_region e category region_key region_config tr =
     (case collect_businesses e category region_config tr of
        (all_businesses, tr') \<Rightarrow> (take 10 (remove_duplicates e all_businesses), tr'))"

subsection \<open>One region\<close>

definition shortfall_row :: "string \<Rightarrow> row" where
  "shortfall_row category =
     \<lparr> Business_Name = ''Less than 10 records available for '' @ category,
       Email = [], Phone = [], Website = Some [], Address = [], Category = category \<rparr>"

text \<open>The body of the loop of \<^verbatim>\<open>scrape_region\<close>: the block of rows of one category.\<close>

definition category_block :: "env \<Rightarrow> string \<Rightarrow> string \<Rightarrow> region_config \<Rightarrow> event list \<Rightarrow> row list \<times> event list" where
  "category_block e category region_key region_config tr =
     (case scrape_category_for_region e category region_key region_config tr of
        (businesses, tr') \<Rightarrow>
          (if length businesses < 10 then businesses @ [shortfall_row category]
           else businesses, tr'))"

fun region_loop :: "env \<Rightarrow> string \<Rightarrow> region_config \<Rightarrow> string list \<Rightarrow> row list \<Rightarrow> event list \<Rightarrow> row list \<times> event list" where
  "region_loop e region_key region_config [] all_results tr = (all_results, tr)"
| "region_loop e region_key region_config (category # cs) all_results tr =
     (case category_block e category region_key region_config tr of
        (businesses, tr') \<Rightarrow>
          region_loop e region_key region_config cs (all_results @ businesses) tr')"

definition scrape_region :: "env \<Rightarrow> string \<Rightarrow> region_config \<Rightarrow> event list \<Rightarrow> row list \<times> event list" where
  "scrape_region e region_key region_config tr =
     region_loop e region_key region_config CATEGORIES [] tr"

text \<open>
  The blocks of a region, one per category and in the order of the categories: what each
  pass of the loop appends to \<^verbatim>\<open>all_results\<close>.
\<close>

fun region_blocks :: "env \<Rightarrow> string \<Rightarrow> region_config \<Rightarrow> string list \<Rightarrow> event list \<Rightarrow> row list list" where
  "region_blocks e region_key region_config [] tr = []"
| "region_blocks e region_key region_config (category # cs) tr =
     (case category_block e category region_key region_config tr of
        (businesses, tr') \<Rightarrow> businesses # region_blocks e region_key region_config cs tr')"

subsection \<open>Reading a trace\<close>

text \<open>The sources whose scrapers were entered, in the order of the calls.\<close>

fun consulted :: "event list \<Rightarrow> string list" where
  "consulted [] = []"
| "consulted (Fetch url # evs) = consulted evs"
| "consulted (Consult src # evs) = src # consulted evs"

text \<open>The base addresses of the two sources the program has a scraper for.\<close>

definition yellowpages_source :: "region_config \<Rightarrow> string" where
  "yellowpages_source region_config =
     (if country region_config = ''Canada'' then ''https://www.yellowpages.ca''
      else ''https://www.yellowpages.com'')"

definition yelp_source :: "region_config \<Rightarrow> string" where
  "yelp_source region_config =
     (if country region_config = ''Canada'' then ''https://www.yelp.ca''
      else ''https://www.yelp.com'')"

subsection \<open>Rows a scraper may emit\<close>

text \<open>A row with a name and an e-mail address, filed under the given category.\<close>

definition emitted_for :: "string \<Rightarrow> row \<Rightarrow> bool" where
  "emitted_for category b \<longleftrightarrow>
     Business_Name b \<noteq> [] \<and> Email b \<noteq> [] \<and> Category b = category"

subsection \<open>Equality up to the case of letters\<close>



subsection \<open>Small worlds for concrete runs\<close>

text \<open>
  A world in which every result page of YellowPages parses into the listings \<open>ls\<close>,
  Yelp result pages hold no card, a page is answered by \<open>pages\<close>, the
  regular-expression engine reports a text as an address when it contains an at-sign,
  and text outside ASCII is left as it is by \<open>unicode_lower\<close>.
\<close>

definition example_findall :: "email_pattern \<Rightarrow> string \<Rightarrow> string list" where
  "example_findall p text =
     (case p of Plain \<Rightarrow> (if CHR ''@'' \<in> set text then [text] else []) | Mailto \<Rightarrow> [])"

definition example_env :: "(string \<Rightarrow> string option) \<Rightarrow> listing list \<Rightarrow> env" where
  "example_env pages ls =
     \<lparr> http_get = (\<lambda>tr url. pages url), quote_plus = (\<lambda>s. s),
       re_findall = example_findall,
       yp_us_listings = (\<lambda>html. ls), yp_ca_listings = (\<lambda>html. ls),
       yelp_listings = (\<lambda>html. []),
       yelp_business = (\<lambda>html. \<lparr> page_phone_elem = None, page_website_elem = None,
                                       page_address_elem = None \<rparr>),
       unicode_lower = (\<lambda>s. s) \<rparr>"

definition plain_listing :: "string \<Rightarrow> listing" where
  "plain_listing n =
     \<lparr> name_elem = Some n, phone_elem = None, website_href = None, address_elem = None,
       listing_text = n @ ''@x.io'' \<rparr>"

definition linked_listing :: listing where
  "linked_listing =
     \<lparr> name_elem = Some ''Acme Co'', phone_elem = Some ''555 0100'',
       website_href = Some ''http://acme.example'', address_elem = None,
       listing_text = ''sales@acme.example'' \<rparr>"

definition ten_names :: "string list" where
  "ten_names = [''a'', ''b'', ''c'', ''d'', ''e'', ''f'', ''g'', ''h'', ''i'', ''j'']"

text \<open>
  Five such worlds: nothing answers; ten listings with different names; ten copies of one
  listing; a single listing; a listing that links to a website whose page holds an address
  other than the one in the listing's own text.
\<close>

definition offline_world :: env where
  "offline_world = example_env (\<lambda>url. None) []"

definition ten_world :: env where
  "ten_world = example_env (\<lambda>url. Some ''<html>'') (map plain_listing ten_names)"

definition repeat_world :: env where
  "repeat_world = example_env (\<lambda>url. Some ''<html>'') (replicate 10 (plain_listing ''a''))"

definition one_world :: env where
  "one_world = example_env (\<lambda>url. Some ''<html>'') [plain_listing ''a'']"

definition linked_world :: env where
  "linked_world = example_env (\<lambda>url. Some ''info@acme.example'') [linked_listing]"

text \<open>The row that the YellowPages loop builds from \<open>plain_listing n\<close>.\<close>

definition plain_row :: "string \<Rightarrow> string \<Rightarrow> row" where
  "plain_row category n =
     \<lparr> Business_Name = n, Email = n @ ''@x.io'', Phone = [], Website = Some [],
       Address = [], Category = category \<rparr>"

text \<open>Rows for runs of the duplicate removal alone.\<close>

definition acme_row :: row where
  "acme_row = \<lparr> Business_Name = ''Acme Co'', Email = ''a@acme.com'', Phone = ''555 0100'',
                 Website = Some [], Address = [], Category = ''Cafes'' \<rparr>"

definition acme_row_upper :: row where
  "acme_row_upper = \<lparr> Business_Name = ''ACME CO'', Email = ''A@ACME.COM'', Phone = ''555 0199'',
                       Website = None, Address = ''1 Main St'', Category = ''Cafes'' \<rparr>"

definition bolt_row :: row where
  "bolt_row = \<lparr> Business_Name = ''Bolt'', Email = ''b@bolt.org'', Phone = [],
                 Website = None, Address = [], Category = ''Cafes'' \<rparr>"

definition nameless_row :: row where
  "nameless_row = \<lparr> Business_Name = [], Email = [], Phone = ''555 0100'',
                     Website = None, Address = [], Category = ''Cafes'' \<rparr>"

section \<open>Properties\<close>

subsection \<open>Cleaning text\<close>

lemma drop_leading_stop: "match_length ws s = 0 \<Longrightarrow> drop_leading ws s = s"
  by (subst drop_leading.simps) simp

lemma drop_leading_step:
  "match_length ws s = Suc k \<Longrightarrow> drop_leading ws s = drop_leading ws (drop (Suc k) s)"
  by (subst drop_leading.simps) simp

lemma collapse_spaces_keep:
  "match_length WHITESPACE (c # cs) = 0 \<Longrightarrow> collapse_spaces (c # cs) = c # collapse_spaces cs"
  by (simp add: collapse_spaces.simps(2))

lemma collapse_spaces_run:
  "match_length WHITESPACE (c # cs) = Suc k \<Longrightarrow>
   collapse_spaces (c # cs) = CHR '' '' # collapse_spaces (lstrip (c # cs))"
  by (simp add: collapse_spaces.simps(2))

lemmas clean_defs = clean_text_def strip_def lstrip_def rstrip_def match_length_def WHITESPACE_def
  drop_leading_stop drop_leading_step collapse_spaces_keep collapse_spaces_run

lemma clean_text_examples:
  "clean_text ''Acme Co'' = ''Acme Co''"
  "clean_text ''555 0100'' = ''555 0100''"
  "clean_text ''  Acme   Co '' = ''Acme Co''"
  "clean_text [CHR 0xC2, CHR 0xA0] = []"
  by (simp_all add: clean_defs)

lemma clean_text_ten_names: "map clean_text ten_names = ten_names"
  by (simp add: ten_names_def clean_defs)

lemma clean_text_plain: "n \<in> set ten_names \<Longrightarrow> clean_text n = n"
proof -
  have "map clean_text ten_names = map (\<lambda>n. n) ten_names"
    by (simp add: clean_text_ten_names)
  then have "\<forall>n \<in> set ten_names. clean_text n = n"
    by (simp only: map_eq_conv)
  then show "n \<in> set ten_names \<Longrightarrow> clean_text n = n" by blast
qed

subsection \<open>Lower case\<close>









lemma lower_Nil: "lower e [] = []"
  by (simp add: lower_def is_ascii_def)

subsection \<open>Duplicate removal\<close>

lemma dedup_loop_acc: "dedup_loop e xs seen acc = acc @ dedup_loop e xs seen []"
proof (induction xs arbitrary: seen acc)
  case Nil show ?case by simp
next
  case (Cons x xs)
  show ?case
  proof (cases "identifier_of e x \<in> seen")
    case True
    then show ?thesis using Cons.IH[of seen acc] by simp
  next
    case False
    then show ?thesis
      using Cons.IH[of "insert (identifier_of e x) seen" "acc @ [x]"]
            Cons.IH[of "insert (identifier_of e x) seen" "[x]"] by simp
  qed
qed

lemma dedup_loop_Cons:
  "dedup_loop e (x # xs) seen [] =
     (if identifier_of e x \<in> seen then dedup_loop e xs seen []
      else x # dedup_loop e xs (insert (identifier_of e x) seen) [])"
  using dedup_loop_acc[of e xs "insert (identifier_of e x) seen" "[x]"] by simp

lemma dedup_loop_filter:
  "dedup_loop e xs seen [] =
     map (\<lambda>i. xs ! i)
       (filter (\<lambda>i. identifier_of e (xs ! i) \<notin> seen \<union> identifier_of e ` set (take i xs))
          [0..<length xs])"
proof (induction xs arbitrary: seen)
  case Nil show ?case by simp
next
  case (Cons x xs)
  let ?k = "identifier_of e x"
  let ?P = "\<lambda>s i. identifier_of e (xs ! i) \<notin> s \<union> identifier_of e ` set (take i xs)"
  have upt: "[0..<length (x # xs)] = 0 # map Suc [0..<length xs]"
    by (simp add: upt_conv_Cons map_Suc_upt del: upt_Suc)
  have shift: "map (\<lambda>i. (x # xs) ! i)
        (filter (\<lambda>i. identifier_of e ((x # xs) ! i) \<notin> seen \<union> identifier_of e ` set (take i (x # xs)))
           (map Suc [0..<length xs]))
      = map (\<lambda>i. xs ! i) (filter (?P (insert ?k seen)) [0..<length xs])"
    by (simp add: filter_map comp_def conj_ac)
  show ?case
  proof (cases "?k \<in> seen")
    case True
    then have "insert ?k seen = seen" by auto
    with True show ?thesis
      unfolding dedup_loop_Cons upt using shift by (simp add: Cons.IH[of seen])
  next
    case False
    then show ?thesis
      unfolding dedup_loop_Cons upt using shift
      by (simp add: Cons.IH[of "insert ?k seen"])
  qed
qed

lemma set_dedup_loop: "set (dedup_loop e xs seen []) \<subseteq> set xs"
  by (induction xs arbitrary: seen) (auto simp: dedup_loop_Cons simp del: dedup_loop.simps(2))

lemma keys_dedup_loop:
  "identifier_of e ` set (dedup_loop e xs seen []) = identifier_of e ` set xs - seen"
  by (induction xs arbitrary: seen) (auto simp: dedup_loop_Cons simp del: dedup_loop.simps(2))

lemma distinct_dedup_loop: "distinct (map (identifier_of e) (dedup_loop e xs seen []))"
proof (induction xs arbitrary: seen)
  case Nil show ?case by simp
next
  case (Cons x xs)
  have "identifier_of e x \<notin> identifier_of e ` set (dedup_loop e xs (insert (identifier_of e x) seen) [])"
    by (simp add: keys_dedup_loop)
  then show ?case using Cons.IH by (simp add: dedup_loop_Cons del: dedup_loop.simps(2))
qed


lemma dedup_loop_fixed:
  "distinct (map (identifier_of e) xs) \<Longrightarrow> identifier_of e ` set xs \<inter> seen = {} \<Longrightarrow>
   dedup_loop e xs seen [] = xs"
proof (induction xs arbitrary: seen)
  case Nil show ?case by simp
next
  case (Cons x xs)
  from Cons.prems have "identifier_of e ` set xs \<inter> insert (identifier_of e x) seen = {}"
    by auto
  with Cons show ?case by (simp add: dedup_loop_Cons del: dedup_loop.simps(2))
qed

lemma length_dedup_loop: "length (dedup_loop e xs seen []) \<le> length xs"
  by (induction xs arbitrary: seen) (auto simp: dedup_loop_Cons le_SucI simp del: dedup_loop.simps(2))

subsection \<open>What the scrapers emit\<close>

lemma truthy_or_empty: "truthy v \<Longrightarrow> or_empty v \<noteq> []"
  by (cases v) (simp_all add: truthy_def or_empty_def)

lemma process_listing_emits:
  assumes "process_listing e category l tr = (Some b, tr')"
  shows "emitted_for category b"
  using assms
  by (auto simp: process_listing_def emitted_for_def Let_def truthy_or_empty
           split: option.splits if_splits prod.splits)

lemma process_card_emits:
  assumes "process_card e category base_url item tr = (Some b, tr')"
  shows "emitted_for category b"
  using assms
  by (auto simp: process_card_def emitted_for_def Let_def truthy_or_empty
           split: option.splits if_splits prod.splits)

lemma listing_loop_emits:
  "list_all (emitted_for category) businesses \<Longrightarrow>
   list_all (emitted_for category) (fst (listing_loop e category ls businesses tr))"
proof (induction ls arbitrary: businesses tr)
  case Nil then show ?case by simp
next
  case (Cons l ls)
  obtain r tr' where p: "process_listing e category l tr = (r, tr')" by (cases "process_listing e category l tr")
  show ?case
  proof (cases r)
    case None
    with p Cons show ?thesis by simp
  next
    case (Some b)
    with p have "emitted_for category b" by (auto dest: process_listing_emits)
    with Cons.prems have "list_all (emitted_for category) (businesses @ [b])" by simp
    with p Some Cons.IH[of "businesses @ [b]" tr'] show ?thesis by (simp add: Let_def)
  qed
qed

lemma card_loop_emits:
  "list_all (emitted_for category) businesses \<Longrightarrow>
   list_all (emitted_for category) (fst (card_loop e category base_url cs businesses tr))"
proof (induction cs arbitrary: businesses tr)
  case Nil then show ?case by simp
next
  case (Cons c cs)
  obtain r tr' where p: "process_card e category base_url c tr = (r, tr')"
    by (cases "process_card e category base_url c tr")
  show ?case
  proof (cases r)
    case None
    with p Cons show ?thesis by simp
  next
    case (Some b)
    with p have "emitted_for category b" by (auto dest: process_card_emits)
    with Cons.prems have "list_all (emitted_for category) (businesses @ [b])" by simp
    with p Some Cons.IH[of "businesses @ [b]" tr'] show ?thesis by (simp add: Let_def)
  qed
qed

lemma listing_loop_length:
  "length businesses < 10 \<Longrightarrow> length (fst (listing_loop e category ls businesses tr)) \<le> 10"
proof (induction ls arbitrary: businesses tr)
  case Nil then show ?case by simp
next
  case (Cons l ls)
  obtain r tr' where p: "process_listing e category l tr = (r, tr')" by (cases "process_listing e category l tr")
  show ?case
  proof (cases r)
    case None
    with p Cons show ?thesis by simp
  next
    case (Some b)
    show ?thesis
    proof (cases "10 \<le> length (businesses @ [b])")
      case True
      with Cons.prems p Some show ?thesis by (simp add: Let_def)
    next
      case False
      then have "length (businesses @ [b]) < 10" by simp
      from Cons.IH[OF this, of tr'] p Some False show ?thesis by (simp add: Let_def)
    qed
  qed
qed

lemma card_loop_length:
  "length businesses < 10 \<Longrightarrow>
   length (fst (card_loop e category base_url cs businesses tr)) \<le> 10"
proof (induction cs arbitrary: businesses tr)
  case Nil then show ?case by simp
next
  case (Cons c cs)
  obtain r tr' where p: "process_card e category base_url c tr = (r, tr')"
    by (cases "process_card e category base_url c tr")
  show ?case
  proof (cases r)
    case None
    with p Cons show ?thesis by simp
  next
    case (Some b)
    show ?thesis
    proof (cases "10 \<le> length (businesses @ [b])")
      case True
      with Cons.prems p Some show ?thesis by (simp add: Let_def)
    next
      case False
      then have "length (businesses @ [b]) < 10" by simp
      from Cons.IH[OF this, of tr'] p Some False show ?thesis by (simp add: Let_def)
    qed
  qed
qed

lemma scrape_yellowpages_us_emits:
  "list_all (emitted_for category) (fst (scrape_yellowpages_us e category location tr))"
  by (auto simp: scrape_yellowpages_us_def Let_def listing_loop_emits
           split: prod.splits option.splits)

lemma scrape_yellowpages_ca_emits:
  "list_all (emitted_for category) (fst (scrape_yellowpages_ca e category location tr))"
  by (auto simp: scrape_yellowpages_ca_def Let_def listing_loop_emits
           split: prod.splits option.splits)

lemma scrape_yelp_emits:
  "list_all (emitted_for category) (fst (scrape_yelp e category location is_canada tr))"
  by (auto simp: scrape_yelp_def Let_def card_loop_emits
           split: prod.splits option.splits)

lemma scrape_yellowpages_emits:
  "list_all (emitted_for category) (fst (scrape_yellowpages e category rc tr))"
  by (simp add: scrape_yellowpages_def Let_def scrape_yellowpages_us_emits
        scrape_yellowpages_ca_emits)

lemma scrape_yellowpages_us_length:
  "length (fst (scrape_yellowpages_us e category location tr)) \<le> 10"
  by (auto simp: scrape_yellowpages_us_def Let_def listing_loop_length
           split: prod.splits option.splits)

lemma scrape_yellowpages_ca_length:
  "length (fst (scrape_yellowpages_ca e category location tr)) \<le> 10"
  by (auto simp: scrape_yellowpages_ca_def Let_def listing_loop_length
           split: prod.splits option.splits)

lemma scrape_yellowpages_length:
  "length (fst (scrape_yellowpages e category rc tr)) \<le> 10"
  by (simp add: scrape_yellowpages_def Let_def scrape_yellowpages_us_length
        scrape_yellowpages_ca_length)

lemma collect_businesses_emits:
  "list_all (emitted_for category) (fst (collect_businesses e category rc tr))"
proof -
  obtain bs tr1 where y: "scrape_yellowpages e category rc tr = (bs, tr1)"
    by (cases "scrape_yellowpages e category rc tr")
  obtain ys tr2 where z: "scrape_yelp e category (name rc) (country rc = ''Canada'') tr1 = (ys, tr2)"
    by (cases "scrape_yelp e category (name rc) (country rc = ''Canada'') tr1")
  from y have "list_all (emitted_for category) bs"
    using scrape_yellowpages_emits[of category e rc tr] by simp
  moreover from z have "list_all (emitted_for category) ys"
    using scrape_yelp_emits[of category e "name rc" "country rc = ''Canada''" tr1] by simp
  ultimately show ?thesis
    using y z by (simp add: collect_businesses_def Let_def)
qed

lemma scrape_category_emits:
  "list_all (emitted_for category) (fst (scrape_category_for_region e category k rc tr))"
proof -
  obtain xs tr' where c: "collect_businesses e category rc tr = (xs, tr')"
    by (cases "collect_businesses e category rc tr")
  then have "list_all (emitted_for category) xs"
    using collect_businesses_emits[of category e rc tr] by simp
  then have "\<forall>b \<in> set xs. emitted_for category b" by (simp add: list_all_iff)
  moreover have "set (take 10 (remove_duplicates e xs)) \<subseteq> set xs"
    using set_take_subset set_dedup_loop unfolding remove_duplicates_def by fast
  ultimately have "\<forall>b \<in> set (take 10 (remove_duplicates e xs)). emitted_for category b" by blast
  then show ?thesis using c by (simp add: scrape_category_for_region_def list_all_iff)
qed

lemma scrape_category_length:
  "length (fst (scrape_category_for_region e category k rc tr)) \<le> 10"
  by (simp add: scrape_category_for_region_def split: prod.splits)

subsection \<open>What the scrapers leave in the trace\<close>

lemma consulted_append: "consulted (xs @ ys) = consulted xs @ consulted ys"
  by (induction xs rule: consulted.induct) simp_all

lemma consulted_process_listing:
  "consulted (snd (process_listing e category l tr)) = consulted tr"
  by (auto simp: process_listing_def website_email_def fetch_page_def Let_def consulted_append
           split: option.splits if_splits prod.splits)

lemma consulted_process_card:
  "consulted (snd (process_card e category base_url item tr)) = consulted tr"
  by (auto simp: process_card_def fetch_page_def Let_def consulted_append
           split: option.splits if_splits prod.splits)

lemma consulted_listing_loop:
  "consulted (snd (listing_loop e category ls businesses tr)) = consulted tr"
proof (induction ls arbitrary: businesses tr)
  case Nil show ?case by simp
next
  case (Cons l ls)
  obtain r tr' where p: "process_listing e category l tr = (r, tr')" by (cases "process_listing e category l tr")
  then have "consulted tr' = consulted tr"
    using consulted_process_listing[of e category l tr] by simp
  with p Cons show ?case by (cases r) (simp_all add: Let_def)
qed

lemma consulted_card_loop:
  "consulted (snd (card_loop e category base_url cs businesses tr)) = consulted tr"
proof (induction cs arbitrary: businesses tr)
  case Nil show ?case by simp
next
  case (Cons c cs)
  obtain r tr' where p: "process_card e category base_url c tr = (r, tr')"
    by (cases "process_card e category base_url c tr")
  then have "consulted tr' = consulted tr"
    using consulted_process_card[of e category base_url c tr] by simp
  with p Cons show ?case by (cases r) (simp_all add: Let_def)
qed

lemma consulted_scrape_yellowpages_us:
  "consulted (snd (scrape_yellowpages_us e category location tr)) =
     consulted tr @ [''https://www.yellowpages.com'']"
  by (simp add: scrape_yellowpages_us_def fetch_page_def Let_def consulted_append
        consulted_listing_loop split: option.splits)

lemma consulted_scrape_yellowpages_ca:
  "consulted (snd (scrape_yellowpages_ca e category location tr)) =
     consulted tr @ [''https://www.yellowpages.ca'']"
  by (simp add: scrape_yellowpages_ca_def fetch_page_def Let_def consulted_append
        consulted_listing_loop split: option.splits)

lemma consulted_scrape_yellowpages:
  "consulted (snd (scrape_yellowpages e category rc tr)) =
     consulted tr @ [yellowpages_source rc]"
  by (simp add: scrape_yellowpages_def yellowpages_source_def Let_def
        consulted_scrape_yellowpages_us consulted_scrape_yellowpages_ca)

lemma consulted_scrape_yelp:
  "consulted (snd (scrape_yelp e category location is_canada tr)) =
     consulted tr @ [if is_canada then ''https://www.yelp.ca'' else ''https://www.yelp.com'']"
  by (simp add: scrape_yelp_def fetch_page_def Let_def consulted_append
        consulted_card_loop split: option.splits)

lemma consulted_collect_businesses:
  "consulted (snd (collect_businesses e category rc tr)) =
     consulted tr @ [yellowpages_source rc] @
       (if length (fst (scrape_yellowpages e category rc tr)) < 10 then [yelp_source rc] else [])"
proof -
  obtain bs tr1 where y: "scrape_yellowpages e category rc tr = (bs, tr1)"
    by (cases "scrape_yellowpages e category rc tr")
  then have c1: "consulted tr1 = consulted tr @ [yellowpages_source rc]"
    using consulted_scrape_yellowpages[of e category rc tr] by simp
  obtain ys tr2 where z: "scrape_yelp e category (name rc) (country rc = ''Canada'') tr1 = (ys, tr2)"
    by (cases "scrape_yelp e category (name rc) (country rc = ''Canada'') tr1")
  then have c2: "consulted tr2 = consulted tr1 @ [yelp_source rc]"
    using consulted_scrape_yelp[of e category "name rc" "country rc = ''Canada''" tr1]
    by (simp add: yelp_source_def)
  show ?thesis using y z c1 c2 by (simp add: collect_businesses_def Let_def)
qed

subsection \<open>The blocks of a region\<close>

lemma region_loop_blocks:
  "fst (region_loop e k rc cs acc tr) = acc @ concat (region_blocks e k rc cs tr)"
proof (induction cs arbitrary: acc tr)
  case Nil show ?case by simp
next
  case (Cons c cs)
  obtain blk tr' where b: "category_block e c k rc tr = (blk, tr')"
    by (cases "category_block e c k rc tr")
  with Cons.IH[of "acc @ blk" tr'] show ?case by simp
qed

lemma length_region_blocks: "length (region_blocks e k rc cs tr) = length cs"
proof (induction cs arbitrary: tr)
  case Nil show ?case by simp
next
  case (Cons c cs)
  then show ?case by (cases "category_block e c k rc tr") simp
qed

lemma category_block_rows:
  "list_all (\<lambda>b. b = shortfall_row c \<or> emitted_for c b) (fst (category_block e c k rc tr))"
proof -
  obtain bs tr' where s: "scrape_category_for_region e c k rc tr = (bs, tr')"
    by (cases "scrape_category_for_region e c k rc tr")
  then have "list_all (emitted_for c) bs"
    using scrape_category_emits[of c e k rc tr] by simp
  then have "list_all (\<lambda>b. b = shortfall_row c \<or> emitted_for c b) bs"
    by (simp add: list_all_iff)
  with s show ?thesis by (simp add: category_block_def)
qed

lemma region_blocks_rows:
  "list_all2 (\<lambda>c blk. list_all (\<lambda>b. b = shortfall_row c \<or> emitted_for c b) blk)
     cs (region_blocks e k rc cs tr)"
proof (induction cs arbitrary: tr)
  case Nil show ?case by simp
next
  case (Cons c cs)
  obtain blk tr' where b: "category_block e c k rc tr = (blk, tr')"
    by (cases "category_block e c k rc tr")
  then have "list_all (\<lambda>b. b = shortfall_row c \<or> emitted_for c b) blk"
    using category_block_rows[of c e k rc tr] by simp
  with b Cons.IH[of tr'] show ?case by simp
qed

lemma region_blocks_nth:
  assumes "i < length cs" and "b \<in> set (region_blocks e k rc cs tr ! i)"
  shows "b = shortfall_row (cs ! i) \<or> emitted_for (cs ! i) b"
proof -
  from region_blocks_rows[of cs e k rc tr] assms(1)
  have "list_all (\<lambda>b. b = shortfall_row (cs ! i) \<or> emitted_for (cs ! i) b)
          (region_blocks e k rc cs tr ! i)"
    by (simp add: list_all2_conv_all_nth)
  with assms(2) show ?thesis by (simp add: list_all_iff)
qed

lemma category_shortfall_row [simp]: "Category (shortfall_row c) = c"
  by (simp add: shortfall_row_def)

subsection \<open>The category run, unfolded\<close>

lemma length_remove_duplicates: "length (remove_duplicates e xs) \<le> length xs"
  by (simp add: remove_duplicates_def length_dedup_loop)

lemma collect_businesses_eq:
  "collect_businesses e c rc tr =
     (if length (fst (scrape_yellowpages e c rc tr)) < 10
      then (fst (scrape_yellowpages e c rc tr) @
              fst (scrape_yelp e c (name rc) (country rc = ''Canada'')
                     (snd (scrape_yellowpages e c rc tr))),
            snd (scrape_yelp e c (name rc) (country rc = ''Canada'')
                     (snd (scrape_yellowpages e c rc tr))))
      else scrape_yellowpages e c rc tr)"
  by (simp add: collect_businesses_def Let_def split: prod.splits)

lemma scrape_category_eq:
  "scrape_category_for_region e c k rc tr =
     (take 10 (remove_duplicates e (fst (collect_businesses e c rc tr))),
      snd (collect_businesses e c rc tr))"
  by (simp add: scrape_category_for_region_def split: prod.splits)

lemma category_block_trace:
  "snd (category_block e c k rc tr) = snd (collect_businesses e c rc tr)"
  by (simp add: category_block_def scrape_category_eq)

subsection \<open>Concrete runs\<close>

lemmas run_defs = scrape_category_for_region_def collect_businesses_def scrape_yellowpages_def
  scrape_yellowpages_us_def scrape_yellowpages_ca_def scrape_yelp_def fetch_page_def
  example_env_def example_findall_def plain_listing_def ten_names_def kansas_def nunavut_def
  process_listing_def website_email_def extract_email_from_text_def truthy_def or_empty_def
  clean_text_examples remove_duplicates_def identifier_of_def lower_def is_ascii_def
  lower_char_def category_block_def shortfall_row_def Let_def linked_listing_def
  yellowpages_source_def yelp_source_def

lemmas world_defs = offline_world_def ten_world_def repeat_world_def one_world_def
  linked_world_def plain_row_def

lemmas row_defs = acme_row_def acme_row_upper_def bolt_row_def nameless_row_def

lemma process_plain_listing:
  "re_findall e = example_findall \<Longrightarrow> n \<in> set ten_names \<Longrightarrow>
   process_listing e c (plain_listing n) tr = (Some (plain_row c n), tr)"
proof -
  assume f: "re_findall e = example_findall" and n: "n \<in> set ten_names"
  from n have c: "clean_text n = n" by (rule clean_text_plain)
  from n have "n \<noteq> []" by (auto simp: ten_names_def)
  with f c show ?thesis
    by (simp add: process_listing_def plain_listing_def website_email_def
          extract_email_from_text_def example_findall_def truthy_def or_empty_def
          plain_row_def Let_def)
qed

lemma offline_yellowpages:
  "scrape_yellowpages offline_world c kansas tr =
     ([], tr @ [Consult ''https://www.yellowpages.com'',
        Fetch (''https://www.yellowpages.com/search?search_terms='' @ c
               @ ''&geo_location_terms=Kansas, United States'')])"
  by (simp add: run_defs world_defs)

lemma offline_run:
  "scrape_category_for_region offline_world c ''kansas'' kansas tr =
     ([], tr @ [Consult ''https://www.yellowpages.com'',
        Fetch (''https://www.yellowpages.com/search?search_terms='' @ c
               @ ''&geo_location_terms=Kansas, United States''),
        Consult ''https://www.yelp.com'',
        Fetch (''https://www.yelp.com/search?find_desc='' @ c @ ''&find_loc=Kansas'')])"
  by (simp add: run_defs world_defs)

lemma ten_yellowpages:
  "scrape_yellowpages ten_world c kansas tr =
     (map (plain_row c) ten_names,
      tr @ [Consult ''https://www.yellowpages.com'',
        Fetch (''https://www.yellowpages.com/search?search_terms='' @ c
               @ ''&geo_location_terms=Kansas, United States'')])"
  by (simp add: scrape_yellowpages_def scrape_yellowpages_us_def fetch_page_def kansas_def
        ten_world_def example_env_def process_plain_listing ten_names_def Let_def)

lemma ten_run:
  "scrape_category_for_region ten_world c ''kansas'' kansas tr =
     (map (plain_row c) ten_names,
      tr @ [Consult ''https://www.yellowpages.com'',
        Fetch (''https://www.yellowpages.com/search?search_terms='' @ c
               @ ''&geo_location_terms=Kansas, United States'')])"
  by (simp add: scrape_category_for_region_def collect_businesses_def ten_yellowpages Let_def)
     (simp add: ten_names_def plain_row_def remove_duplicates_def identifier_of_def lower_def
        is_ascii_def lower_char_def)

lemma repeat_yellowpages:
  "scrape_yellowpages repeat_world c kansas tr =
     (replicate 10 (plain_row c ''a''),
      tr @ [Consult ''https://www.yellowpages.com'',
        Fetch (''https://www.yellowpages.com/search?search_terms='' @ c
               @ ''&geo_location_terms=Kansas, United States'')])"
  by (simp add: scrape_yellowpages_def scrape_yellowpages_us_def fetch_page_def kansas_def
        repeat_world_def example_env_def process_plain_listing ten_names_def Let_def
        numeral_eq_Suc)

lemma repeat_run:
  "scrape_category_for_region repeat_world c ''kansas'' kansas tr =
     ([plain_row c ''a''],
      tr @ [Consult ''https://www.yellowpages.com'',
        Fetch (''https://www.yellowpages.com/search?search_terms='' @ c
               @ ''&geo_location_terms=Kansas, United States'')])"
  by (simp add: scrape_category_for_region_def collect_businesses_def repeat_yellowpages Let_def)
     (simp add: numeral_eq_Suc remove_duplicates_def)

lemma one_run:
  "scrape_category_for_region one_world c ''kansas'' kansas tr =
     ([plain_row c ''a''],
      tr @ [Consult ''https://www.yellowpages.com'',
        Fetch (''https://www.yellowpages.com/search?search_terms='' @ c
               @ ''&geo_location_terms=Kansas, United States''),
        Consult ''https://www.yelp.com'',
        Fetch (''https://www.yelp.com/search?find_desc='' @ c @ ''&find_loc=Kansas'')])"
  by (simp add: scrape_category_for_region_def collect_businesses_def scrape_yellowpages_def
        scrape_yellowpages_us_def scrape_yelp_def fetch_page_def kansas_def
        one_world_def example_env_def process_plain_listing ten_names_def Let_def
        remove_duplicates_def)

lemma one_blocks:
  "region_blocks one_world ''kansas'' kansas cs tr =
     map (\<lambda>c. [plain_row c ''a'', shortfall_row c]) cs"
  by (induction cs arbitrary: tr) (simp_all add: category_block_def one_run)

lemma one_region:
  "fst (scrape_region one_world ''kansas'' kansas tr) =
     concat (map (\<lambda>c. [plain_row c ''a'', shortfall_row c]) CATEGORIES)"
  by (simp add: scrape_region_def region_loop_blocks one_blocks)

lemma linked_run:
  "process_listing linked_world c linked_listing tr =
     (Some \<lparr> Business_Name = ''Acme Co'', Email = ''info@acme.example'', Phone = ''555 0100'',
             Website = Some ''http://acme.example'', Address = [], Category = c \<rparr>,
      tr @ [Fetch ''http://acme.example''])"
  by (simp add: run_defs world_defs)

lemma sources_kansas:
  "yellowpages_source kansas = ''https://www.yellowpages.com''"
  "yelp_source kansas = ''https://www.yelp.com''"
  by (simp_all add: yellowpages_source_def yelp_source_def kansas_def)

lemma dedup_three:
  "remove_duplicates offline_world [acme_row, acme_row_upper, bolt_row] = [acme_row, bolt_row]"
  by (simp add: remove_duplicates_def identifier_of_def lower_def is_ascii_def lower_char_def
        row_defs)

section \<open>The claims\<close>

text \<open>
  Claim C1. For every region and category, the block of rows assembled for the category
  holds at most ten business rows: they are the first ten, in insertion order, of the
  rows left by the duplicate removal. A business row is a row with an e-mail address; the
  shortfall row has none. When fewer than ten business rows are there, exactly one
  shortfall row follows them, whose name reads "Less than 10 records available for"
  followed by the category; with ten business rows nothing is appended.
\<close>

theorem quota_block:
  "let recs = fst (scrape_category_for_region e c k rc tr);
       blk = fst (category_block e c k rc tr)
   in recs = take 10 (remove_duplicates e (fst (collect_businesses e c rc tr)))
      \<and> length recs \<le> 10
      \<and> filter (\<lambda>b. Email b \<noteq> []) blk = recs
      \<and> blk = recs @ (if length recs < 10 then [shortfall_row c] else [])
      \<and> Business_Name (shortfall_row c) = ''Less than 10 records available for '' @ c
      \<and> Email (shortfall_row c) = []"
proof -
  obtain recs tr' where s: "scrape_category_for_region e c k rc tr = (recs, tr')"
    by (cases "scrape_category_for_region e c k rc tr")
  have a: "recs = take 10 (remove_duplicates e (fst (collect_businesses e c rc tr)))"
    using s by (auto simp: scrape_category_for_region_def split: prod.splits)
  have b: "length recs \<le> 10" using a by simp
  have "list_all (emitted_for c) recs"
    using scrape_category_emits[of c e k rc tr] s by simp
  then have keep: "filter (\<lambda>b. Email b \<noteq> []) recs = recs"
    by (simp add: list_all_iff emitted_for_def)
  have blk: "fst (category_block e c k rc tr) =
               recs @ (if length recs < 10 then [shortfall_row c] else [])"
    using s by (simp add: category_block_def)
  have m: "Email (shortfall_row c) = []"
    and n: "Business_Name (shortfall_row c) = ''Less than 10 records available for '' @ c"
    by (simp_all add: shortfall_row_def)
  have f: "filter (\<lambda>b. Email b \<noteq> []) (fst (category_block e c k rc tr)) = recs"
    unfolding blk using keep m by simp
  show ?thesis
    unfolding Let_def using s a b f blk m n by simp
qed

theorem quota_block_witness:
  "fst (category_block offline_world ''Cafes'' ''kansas'' kansas []) = [shortfall_row ''Cafes'']
   \<and> fst (category_block one_world ''Cafes'' ''kansas'' kansas [])
       = [plain_row ''Cafes'' ''a'', shortfall_row ''Cafes'']
   \<and> fst (category_block ten_world ''Cafes'' ''kansas'' kansas [])
       = map (plain_row ''Cafes'') ten_names
   \<and> length (fst (scrape_category_for_region ten_world ''Cafes'' ''kansas'' kansas [])) = 10"
proof -
  have a: "fst (category_block offline_world ''Cafes'' ''kansas'' kansas [])
             = [shortfall_row ''Cafes'']"
    by (simp add: category_block_def offline_run)
  have b: "fst (category_block one_world ''Cafes'' ''kansas'' kansas [])
             = [plain_row ''Cafes'' ''a'', shortfall_row ''Cafes'']"
    by (simp add: category_block_def one_run)
  have c: "fst (category_block ten_world ''Cafes'' ''kansas'' kansas [])
             = map (plain_row ''Cafes'') ten_names"
    by (simp add: category_block_def ten_run) (simp add: ten_names_def)
  have d: "length (fst (scrape_category_for_region ten_world ''Cafes'' ''kansas'' kansas [])) = 10"
    by (simp add: ten_run) (simp add: ten_names_def)
  from quota_block[of offline_world "''Cafes''" "''kansas''" kansas "[]"]
       quota_block[of one_world "''Cafes''" "''kansas''" kansas "[]"]
       quota_block[of ten_world "''Cafes''" "''kansas''" kansas "[]"] a b c d
  show ?thesis by blast
qed

text \<open>
  Claim C2. Every row of a region's final result is the shortfall row of one of the
  categories, or has a non-empty name and a non-empty e-mail address: all three scrapers
  skip a listing whose cleaned name is empty and one for which no address was found.
\<close>

theorem harvest_rows_named_and_addressed:
  "\<forall>b \<in> set (fst (scrape_region e k rc tr)).
     b \<in> shortfall_row ` set CATEGORIES \<or> (Business_Name b \<noteq> [] \<and> Email b \<noteq> [])"
proof
  fix b assume "b \<in> set (fst (scrape_region e k rc tr))"
  then have "b \<in> set (concat (region_blocks e k rc CATEGORIES tr))"
    by (simp add: scrape_region_def region_loop_blocks)
  then obtain blk where blk: "blk \<in> set (region_blocks e k rc CATEGORIES tr)" and b: "b \<in> set blk"
    by auto
  then obtain i where i: "i < length CATEGORIES" and "blk = region_blocks e k rc CATEGORIES tr ! i"
    by (auto simp: in_set_conv_nth length_region_blocks)
  with b have "b = shortfall_row (CATEGORIES ! i) \<or> emitted_for (CATEGORIES ! i) b"
    using region_blocks_nth[of i CATEGORIES b e k rc tr] by simp
  with i show "b \<in> shortfall_row ` set CATEGORIES \<or> (Business_Name b \<noteq> [] \<and> Email b \<noteq> [])"
    by (auto simp: emitted_for_def)
qed

theorem harvest_rows_named_and_addressed_witness:
  "plain_row ''Restaurants'' ''a'' \<in> set (fst (scrape_region one_world ''kansas'' kansas []))
   \<and> plain_row ''Restaurants'' ''a'' \<notin> shortfall_row ` set CATEGORIES
   \<and> Business_Name (plain_row ''Restaurants'' ''a'') \<noteq> []
   \<and> Email (plain_row ''Restaurants'' ''a'') \<noteq> []"
proof -
  have m: "plain_row ''Restaurants'' ''a'' \<in> set (fst (scrape_region one_world ''kansas'' kansas []))"
    by (simp add: one_region CATEGORIES_def)
  have n: "plain_row ''Restaurants'' ''a'' \<notin> shortfall_row ` set CATEGORIES"
    by (auto simp: plain_row_def shortfall_row_def)
  from harvest_rows_named_and_addressed[of one_world "''kansas''" kansas "[]"] m n
  show ?thesis by blast
qed

text \<open>
  Claim C3, as the program has it. The duplicate removal does no mandatory-field
  filtering. Every row of its result is a row of its input; a row is kept whenever no
  earlier row has its key, whether or not its name or its address is empty; and every
  key of the input, also the key of a row with an empty name or address, is the key of a
  row of the result. A row without name and address that reaches it is kept (the
  counterexample below). Such rows are kept out before it, by the scrapers: every row
  that the program passes to the duplicate removal has a non-empty name and a non-empty
  address, and so has every row of the result of a category.
\<close>

theorem dedup_no_field_filter:
  "set (remove_duplicates e xs) \<subseteq> set xs
   \<and> (\<forall>i < length xs.
         identifier_of e (xs ! i) \<notin> identifier_of e ` set (take i xs)
         \<longrightarrow> xs ! i \<in> set (remove_duplicates e xs))
   \<and> identifier_of e ` set (remove_duplicates e xs) = identifier_of e ` set xs
   \<and> (\<forall>b \<in> set (fst (collect_businesses e c rc tr)).
         Business_Name b \<noteq> [] \<and> Email b \<noteq> [])
   \<and> (\<forall>b \<in> set (fst (scrape_category_for_region e c k rc tr)).
         Business_Name b \<noteq> [] \<and> Email b \<noteq> [])"
proof -
  have sub: "set (remove_duplicates e xs) \<subseteq> set xs"
    unfolding remove_duplicates_def by (rule set_dedup_loop)
  have kept: "\<forall>i < length xs.
         identifier_of e (xs ! i) \<notin> identifier_of e ` set (take i xs)
         \<longrightarrow> xs ! i \<in> set (remove_duplicates e xs)"
  proof (intro allI impI)
    fix i
    assume i: "i < length xs"
      and first: "identifier_of e (xs ! i) \<notin> identifier_of e ` set (take i xs)"
    have eq: "remove_duplicates e xs =
       map (\<lambda>i. xs ! i)
         (filter (\<lambda>i. identifier_of e (xs ! i) \<notin> identifier_of e ` set (take i xs))
            [0..<length xs])"
      unfolding remove_duplicates_def using dedup_loop_filter[of e xs "{}"] by simp
    from i first have "i \<in> set (filter (\<lambda>i. identifier_of e (xs ! i)
                            \<notin> identifier_of e ` set (take i xs)) [0..<length xs])"
      by simp
    then show "xs ! i \<in> set (remove_duplicates e xs)"
      unfolding eq by (simp only: set_map) (rule imageI)
  qed
  have keys: "identifier_of e ` set (remove_duplicates e xs) = identifier_of e ` set xs"
    by (simp add: remove_duplicates_def keys_dedup_loop)
  have up1: "\<forall>b \<in> set (fst (collect_businesses e c rc tr)).
         Business_Name b \<noteq> [] \<and> Email b \<noteq> []"
    using collect_businesses_emits[of c e rc tr] by (simp add: list_all_iff emitted_for_def)
  have up2: "\<forall>b \<in> set (fst (scrape_category_for_region e c k rc tr)).
         Business_Name b \<noteq> [] \<and> Email b \<noteq> []"
    using scrape_category_emits[of c e k rc tr] by (simp add: list_all_iff emitted_for_def)
  from sub kept keys up1 up2 show ?thesis by blast
qed

theorem dedup_no_field_filter_witness:
  "remove_duplicates one_world [acme_row, nameless_row] = [acme_row, nameless_row]
   \<and> Business_Name nameless_row = [] \<and> Email nameless_row = []
   \<and> fst (collect_businesses one_world ''Cafes'' kansas []) = [plain_row ''Cafes'' ''a'']
   \<and> fst (scrape_category_for_region one_world ''Cafes'' ''kansas'' kansas [])
        = [plain_row ''Cafes'' ''a'']
   \<and> Business_Name (plain_row ''Cafes'' ''a'') = ''a''
   \<and> Email (plain_row ''Cafes'' ''a'') = ''a@x.io''"
proof -
  have a: "remove_duplicates one_world [acme_row, nameless_row] = [acme_row, nameless_row]"
    by (simp add: remove_duplicates_def identifier_of_def lower_def is_ascii_def lower_char_def
          row_defs)
  have b: "Business_Name nameless_row = [] \<and> Email nameless_row = []"
    by (simp add: nameless_row_def)
  have c: "fst (collect_businesses one_world ''Cafes'' kansas []) = [plain_row ''Cafes'' ''a'']"
    by (simp add: collect_businesses_def scrape_yellowpages_def
          scrape_yellowpages_us_def scrape_yelp_def fetch_page_def kansas_def
          one_world_def example_env_def process_plain_listing ten_names_def Let_def)
  have d: "fst (scrape_category_for_region one_world ''Cafes'' ''kansas'' kansas [])
             = [plain_row ''Cafes'' ''a'']"
    by (simp add: one_run)
  have f: "Business_Name (plain_row ''Cafes'' ''a'') = ''a''
           \<and> Email (plain_row ''Cafes'' ''a'') = ''a@x.io''"
    by (simp add: plain_row_def)
  from dedup_no_field_filter[where e = one_world and xs = "[acme_row, nameless_row]"
         and c = "''Cafes''" and rc = kansas and tr = "[]" and k = "''kansas''"] a b c d f
  show ?thesis by blast
qed

theorem dedup_filters_fields_counterexample:
  "remove_duplicates offline_world [nameless_row] = [nameless_row]
   \<and> Business_Name nameless_row = [] \<and> Email nameless_row = []"
  by (simp add: remove_duplicates_def nameless_row_def)

text \<open>
  Claim C4, as the program has it. For a YellowPages listing with a non-empty cleaned
  name, the linked website is fetched exactly when the listing has a non-empty link,
  whatever the listing's own text holds, and the address found on the fetched page wins;
  the listing's own text is used only when the website gave none. The counterexample
  below is a listing whose text holds an address and whose website is fetched all the
  same, and whose row carries the website's address.
\<close>

theorem website_before_listing_text:
  assumes "name_elem l = Some n" and "clean_text n \<noteq> []"
  shows "snd (process_listing e c l tr) =
           (case website_href l of
              None \<Rightarrow> tr
            | Some w \<Rightarrow> if w = [] then tr else tr @ [Fetch w])
         \<and> map_option Email (fst (process_listing e c l tr)) =
             (let from_website = fst (website_email e (website_href l) tr);
                  from_listing = extract_email_from_text e (listing_text l)
              in if truthy from_website then from_website
                 else if truthy from_listing then from_listing
                 else None)"
proof -
  have tr: "snd (website_email e (website_href l) tr) =
           (case website_href l of
              None \<Rightarrow> tr
            | Some w \<Rightarrow> if w = [] then tr else tr @ [Fetch w])"
    by (simp add: website_email_def fetch_page_def split: option.splits)
  have some: "\<And>v. truthy v \<Longrightarrow> Some (or_empty v) = v"
    by (simp add: truthy_def or_empty_def split: option.splits)
  obtain we tr' where w: "website_email e (website_href l) tr = (we, tr')"
    by (cases "website_email e (website_href l) tr")
  from w tr have a: "snd (process_listing e c l tr) =
           (case website_href l of
              None \<Rightarrow> tr
            | Some w \<Rightarrow> if w = [] then tr else tr @ [Fetch w])"
    using assms by (simp add: process_listing_def Let_def)
  from w have b: "map_option Email (fst (process_listing e c l tr)) =
             (let from_website = fst (website_email e (website_href l) tr);
                  from_listing = extract_email_from_text e (listing_text l)
              in if truthy from_website then from_website
                 else if truthy from_listing then from_listing
                 else None)"
    using assms by (simp add: process_listing_def Let_def some)
  from a b show ?thesis by blast
qed

theorem website_before_listing_text_witness:
  "name_elem linked_listing = Some ''Acme Co'' \<and> clean_text ''Acme Co'' \<noteq> []
   \<and> snd (process_listing linked_world ''Cafes'' linked_listing []) = [Fetch ''http://acme.example'']
   \<and> fst (website_email linked_world (website_href linked_listing) []) = Some ''info@acme.example''
   \<and> map_option Email (fst (process_listing linked_world ''Cafes'' linked_listing []))
        = Some ''info@acme.example''"
proof -
  have h1: "name_elem linked_listing = Some ''Acme Co''" by (simp add: linked_listing_def)
  have h2: "clean_text ''Acme Co'' \<noteq> []" by (simp add: clean_text_examples)
  have w: "fst (website_email linked_world (website_href linked_listing) []) = Some ''info@acme.example''"
    by (simp add: run_defs world_defs)
  show ?thesis
    using h1 h2 w website_before_listing_text[OF h1 h2, of linked_world "''Cafes''" "[]"]
    by (simp add: linked_run)
qed

theorem listing_text_first_counterexample:
  "extract_email_from_text linked_world (listing_text linked_listing) = Some ''sales@acme.example''
   \<and> snd (process_listing linked_world ''Cafes'' linked_listing []) = [Fetch ''http://acme.example'']
   \<and> map_option Email (fst (process_listing linked_world ''Cafes'' linked_listing []))
        = Some ''info@acme.example''"
  by (simp add: linked_run) (simp add: run_defs world_defs)

text \<open>
  Claim C5, as the program has it. YellowPages is always consulted; Yelp is consulted
  exactly when YellowPages returned fewer than ten rows, counted before any duplicate is
  removed; no other source is consulted. Duplicates are removed once, from the
  concatenation of what the consulted sources returned. In the counterexample below
  YellowPages returns ten copies of one row: one unique row, and Yelp is not asked.
\<close>

theorem second_source_on_raw_count:
  "consulted (snd (scrape_category_for_region e c k rc tr)) =
     consulted tr @ [yellowpages_source rc] @
       (if length (fst (scrape_yellowpages e c rc tr)) < 10 then [yelp_source rc] else [])
   \<and> fst (scrape_category_for_region e c k rc tr) =
       take 10 (remove_duplicates e
         (fst (scrape_yellowpages e c rc tr) @
          (if length (fst (scrape_yellowpages e c rc tr)) < 10
           then fst (scrape_yelp e c (name rc) (country rc = ''Canada'')
                       (snd (scrape_yellowpages e c rc tr)))
           else [])))"
  by (simp add: scrape_category_eq consulted_collect_businesses)
     (simp add: collect_businesses_eq)

theorem second_source_on_raw_count_witness:
  "consulted (snd (scrape_category_for_region offline_world ''Cafes'' ''kansas'' kansas []))
     = [''https://www.yellowpages.com'', ''https://www.yelp.com'']
   \<and> length (fst (scrape_yellowpages offline_world ''Cafes'' kansas [])) = 0"
  using second_source_on_raw_count[of offline_world "''Cafes''" "''kansas''" kansas "[]"]
  by (simp add: offline_yellowpages sources_kansas)

theorem second_source_on_unique_count_counterexample:
  "length (remove_duplicates repeat_world
             (fst (scrape_yellowpages repeat_world ''Cafes'' kansas []))) = 1
   \<and> consulted (snd (scrape_category_for_region repeat_world ''Cafes'' ''kansas'' kansas []))
       = [''https://www.yellowpages.com'']
   \<and> fst (category_block repeat_world ''Cafes'' ''kansas'' kansas [])
       = [plain_row ''Cafes'' ''a'', shortfall_row ''Cafes'']"
  by (simp add: repeat_yellowpages repeat_run category_block_def)
     (simp add: numeral_eq_Suc remove_duplicates_def)

text \<open>
  Claim C6, as the program has it. For both configured regions, the sources consulted
  for a category are the first of the region's list, or the first two when the first
  returned fewer than ten rows; the third configured source is never consulted, also
  when the shortfall row is appended (the counterexample below: nothing answers, the
  block is the shortfall row alone, and only the first two sources were consulted).
\<close>

theorem consulted_sources_of_region:
  assumes "rc = kansas \<or> rc = nunavut"
  shows "consulted (snd (category_block e c k rc tr)) =
           consulted tr @
             take (if length (fst (scrape_yellowpages e c rc tr)) < 10 then 2 else 1) (sources rc)
         \<and> sources rc ! 2 \<notin> set (drop (length (consulted tr))
                                    (consulted (snd (category_block e c k rc tr))))"
proof -
  have tk: "take 2 (sources rc) = [yellowpages_source rc, yelp_source rc]"
      "take 1 (sources rc) = [yellowpages_source rc]"
    and third: "sources rc ! 2 \<noteq> yellowpages_source rc" "sources rc ! 2 \<noteq> yelp_source rc"
    using assms by (auto simp: kansas_def nunavut_def yellowpages_source_def yelp_source_def)
  have tr: "consulted (snd (category_block e c k rc tr)) =
     consulted tr @ [yellowpages_source rc] @
       (if length (fst (scrape_yellowpages e c rc tr)) < 10 then [yelp_source rc] else [])"
    by (simp add: category_block_trace consulted_collect_businesses)
  have a: "consulted (snd (category_block e c k rc tr)) =
           consulted tr @
             take (if length (fst (scrape_yellowpages e c rc tr)) < 10 then 2 else 1) (sources rc)"
    unfolding tr using tk by simp
  have b: "sources rc ! 2 \<notin> set (drop (length (consulted tr))
                                    (consulted (snd (category_block e c k rc tr))))"
    unfolding tr using third by simp
  from a b show ?thesis by blast
qed

theorem consulted_sources_of_region_witness:
  "consulted (snd (category_block ten_world ''Cafes'' ''kansas'' kansas []))
     = [''https://www.yellowpages.com'']
   \<and> consulted (snd (category_block one_world ''Cafes'' ''kansas'' kansas []))
     = [''https://www.yellowpages.com'', ''https://www.yelp.com'']"
  using consulted_sources_of_region[of kansas ten_world "''Cafes''" "''kansas''" "[]"]
        consulted_sources_of_region[of kansas one_world "''Cafes''" "''kansas''" "[]"]
  by (simp add: category_block_def ten_run one_run)

theorem third_source_consulted_counterexample:
  "fst (category_block offline_world ''Cafes'' ''kansas'' kansas []) = [shortfall_row ''Cafes'']
   \<and> sources kansas = [''https://www.yellowpages.com'', ''https://www.yelp.com'',
                        ''https://www.manta.com'']
   \<and> consulted (snd (category_block offline_world ''Cafes'' ''kansas'' kansas []))
        = [''https://www.yellowpages.com'', ''https://www.yelp.com'']
   \<and> ''https://www.manta.com'' \<notin>
        set (consulted (snd (category_block offline_world ''Cafes'' ''kansas'' kansas [])))"
  by (simp add: category_block_def offline_run) (simp add: kansas_def)



text \<open>
  Claim C8. When the first source alone yields at least ten rows with pairwise different
  keys, the run of the category leaves the trace of the first source and nothing more: no
  other source is consulted and no other page is fetched.
\<close>

theorem first_source_suffices:
  assumes "10 \<le> length (remove_duplicates e (fst (scrape_yellowpages e c rc tr)))"
  shows "snd (scrape_category_for_region e c k rc tr) = snd (scrape_yellowpages e c rc tr)
         \<and> consulted (snd (scrape_category_for_region e c k rc tr)) =
             consulted tr @ [yellowpages_source rc]"
proof -
  from assms have "10 \<le> length (fst (scrape_yellowpages e c rc tr))"
    using length_remove_duplicates[of e "fst (scrape_yellowpages e c rc tr)"] by linarith
  then have "\<not> length (fst (scrape_yellowpages e c rc tr)) < 10" by simp
  then have "collect_businesses e c rc tr = scrape_yellowpages e c rc tr"
    by (simp add: collect_businesses_eq)
  then show ?thesis
    by (simp add: scrape_category_eq consulted_scrape_yellowpages)
qed

theorem first_source_suffices_witness:
  "10 \<le> length (remove_duplicates ten_world
                   (fst (scrape_yellowpages ten_world ''Restaurants'' kansas [])))
   \<and> consulted (snd (scrape_category_for_region ten_world ''Restaurants'' ''kansas'' kansas []))
       = [''https://www.yellowpages.com'']
   \<and> length (fst (category_block ten_world ''Restaurants'' ''kansas'' kansas [])) = 10"
proof -
  have h: "10 \<le> length (remove_duplicates ten_world
                          (fst (scrape_yellowpages ten_world ''Restaurants'' kansas [])))"
    by (simp add: ten_yellowpages)
       (simp add: ten_names_def plain_row_def remove_duplicates_def identifier_of_def lower_def
          is_ascii_def lower_char_def)
  show ?thesis
    using h first_source_suffices[OF h, of "''kansas''"]
    by (simp add: sources_kansas category_block_def ten_run ten_yellowpages ten_names_def)
qed

text \<open>
  Claim C9. Removing duplicates from the result of the duplicate removal changes
  nothing.
\<close>

theorem dedup_idempotent:
  "remove_duplicates e (remove_duplicates e xs) = remove_duplicates e xs"
  unfolding remove_duplicates_def
  by (rule dedup_loop_fixed) (simp_all add: distinct_dedup_loop)

theorem dedup_idempotent_witness:
  "remove_duplicates offline_world
     (remove_duplicates offline_world [acme_row, acme_row_upper, bolt_row])
     = [acme_row, bolt_row]"
  using dedup_idempotent[of offline_world "[acme_row, acme_row_upper, bolt_row]"]
  by (simp add: dedup_three)

text \<open>
  Claim C10. Every row of the block of a category, business row and shortfall row alike,
  carries that category in its \<open>Category\<close> field; the result of a region is the
  concatenation of one such block per category, in the order of the categories.
\<close>

theorem category_of_every_row:
  "(\<forall>b \<in> set (fst (category_block e c k rc tr)). Category b = c)
   \<and> fst (scrape_region e k rc tr) = concat (region_blocks e k rc CATEGORIES tr)
   \<and> length (region_blocks e k rc CATEGORIES tr) = length CATEGORIES
   \<and> (\<forall>i < length CATEGORIES.
        \<forall>b \<in> set (region_blocks e k rc CATEGORIES tr ! i). Category b = CATEGORIES ! i)"
proof -
  have "\<forall>b \<in> set (fst (category_block e c k rc tr)). Category b = c"
    using category_block_rows[of c e k rc tr]
    by (auto simp: list_all_iff emitted_for_def)
  moreover have "fst (scrape_region e k rc tr) = concat (region_blocks e k rc CATEGORIES tr)"
    by (simp add: scrape_region_def region_loop_blocks)
  moreover have "\<forall>i < length CATEGORIES.
        \<forall>b \<in> set (region_blocks e k rc CATEGORIES tr ! i). Category b = CATEGORIES ! i"
  proof (intro allI impI ballI)
    fix i b
    assume "i < length CATEGORIES" and "b \<in> set (region_blocks e k rc CATEGORIES tr ! i)"
    then have "b = shortfall_row (CATEGORIES ! i) \<or> emitted_for (CATEGORIES ! i) b"
      by (rule region_blocks_nth)
    then show "Category b = CATEGORIES ! i"
      by (auto simp: emitted_for_def)
  qed
  ultimately show ?thesis by (simp add: length_region_blocks)
qed

theorem category_of_every_row_witness:
  "map Category (fst (category_block one_world ''Cafes'' ''kansas'' kansas []))
     = [''Cafes'', ''Cafes'']
   \<and> map Category (fst (scrape_region one_world ''kansas'' kansas []))
     = concat (map (\<lambda>c. [c, c]) CATEGORIES)"
proof -
  have a: "map Category (fst (category_block one_world ''Cafes'' ''kansas'' kansas []))
             = [''Cafes'', ''Cafes'']"
    by (simp add: category_block_def one_run plain_row_def)
  have b: "map Category (fst (scrape_region one_world ''kansas'' kansas []))
             = concat (map (\<lambda>c. [c, c]) CATEGORIES)"
    by (simp add: one_region map_concat comp_def plain_row_def)
  from category_of_every_row[of one_world "''Cafes''" "''kansas''" kansas "[]"] a b
  show ?thesis by blast
qed

end
